theory Spec2Isabelle
  imports Main "HOL-Library.Word" "HOL-Library.Sublist"
begin

unbundle bit_operations_syntax

section \<open>Strings and byte buffers\<close>

text \<open>
  The wrapper (GPGMeWrapper.cpp) moves text between two representations: Qt's
  \<open>QString\<close>, a sequence of 16-bit UTF-16 code units whose \<open>size()\<close> counts code
  units, and the byte buffers (\<open>QByteArray\<close>, \<open>const char *\<close>, \<open>std::string\<close>) that
  the GpgME++ backend reads and writes. Both are modelled as lists, so that the length
  the wrapper computes on one side and uses on the other can be followed.
\<close>

type_synonym byte = "8 word"
type_synonym qchar = "16 word"
type_synonym QString = "qchar list"

text \<open>A string literal of the source (ASCII): one code unit per character.\<close>

definition QLatin :: "string \<Rightarrow> QString" where
  "QLatin s = map of_char s"

definition isHighSurrogate :: "qchar \<Rightarrow> bool" where
  "isHighSurrogate u = (u AND 0xFC00 = 0xD800)"

definition isLowSurrogate :: "qchar \<Rightarrow> bool" where
  "isLowSurrogate u = (u AND 0xFC00 = 0xDC00)"

definition isSurrogate :: "qchar \<Rightarrow> bool" where
  "isSurrogate u = (u AND 0xF800 = 0xD800)"

definition surrogateToUcs4 :: "qchar \<Rightarrow> qchar \<Rightarrow> 32 word" where
  "surrogateToUcs4 high low = push_bit 10 (ucast high) + ucast low - 0x35FDC00"

subsection \<open>\<open>QString::toUtf8\<close>\<close>

text \<open>
  Qt's encoder, which the wrapper calls on every string it hands to the backend. A code
  unit below 0x80 gives one byte, below 0x800 two bytes, any other non-surrogate three
  bytes; a high surrogate followed by a low surrogate gives the four bytes of the code
  point they denote; a surrogate that is not part of such a pair gives the single byte
  \<open>?\<close>.
\<close>

definition utf8_two :: "qchar \<Rightarrow> byte list" where
  "utf8_two u = [0xC0 OR ucast (drop_bit 6 u), 0x80 OR ucast (u AND 0x3F)]"

definition utf8_three :: "qchar \<Rightarrow> byte list" where
  "utf8_three u =
     [0xE0 OR ucast (drop_bit 12 u),
      0x80 OR (ucast (drop_bit 6 u) AND 0x3F),
      0x80 OR ucast (u AND 0x3F)]"

definition utf8_four :: "32 word \<Rightarrow> byte list" where
  "utf8_four ucs4 =
     [0xF0 OR (ucast (drop_bit 18 ucs4) AND 0x0F),
      0x80 OR (ucast (drop_bit 12 ucs4) AND 0x3F),
      0x80 OR (ucast (drop_bit 6 ucs4) AND 0x3F),
      0x80 OR ucast (ucs4 AND 0x3F)]"

fun toUtf8 :: "QString \<Rightarrow> byte list" where
  "toUtf8 [] = []"
| "toUtf8 [u] =
     (if u < 0x80 then [ucast u]
      else if u < 0x800 then utf8_two u
      else if \<not> isSurrogate u then utf8_three u
      else [0x3F])"
| "toUtf8 (u # low # src) =
     (if u < 0x80 then ucast u # toUtf8 (low # src)
      else if u < 0x800 then utf8_two u @ toUtf8 (low # src)
      else if \<not> isSurrogate u then utf8_three u @ toUtf8 (low # src)
      else if isHighSurrogate u \<and> isLowSurrogate low
        then utf8_four (surrogateToUcs4 u low) @ toUtf8 src
      else 0x3F # toUtf8 (low # src))"

subsection \<open>\<open>QString::fromUtf8\<close>\<close>

text \<open>
  Qt's decoder, behind \<open>QString(const char *)\<close>, \<open>QString::append(const char *)\<close> and
  \<open>QString::fromStdString\<close>. A leading byte order mark is skipped. Every byte that does
  not start a well-formed sequence (a stray continuation byte, an overlong form, an
  encoded surrogate, a value above U+10FFFF, a sequence cut off by the end of the input)
  is replaced by U+FFFD and decoding goes on at the next byte.
\<close>

definition isContinuationByte :: "byte \<Rightarrow> bool" where
  "isContinuationByte b = (b AND 0xC0 = 0x80)"

definition charsNeeded :: "byte \<Rightarrow> nat" where
  "charsNeeded b = (if b < 0xE0 then 2 else if b < 0xF0 then 3 else 4)"

definition min_uc :: "byte \<Rightarrow> 32 word" where
  "min_uc b = (if b < 0xE0 then 0x80 else if b < 0xF0 then 0x800 else 0x10000)"

definition first_uc :: "byte \<Rightarrow> 32 word" where
  "first_uc b =
     (if b < 0xE0 then ucast (b AND 0x1F)
      else if b < 0xF0 then ucast (b AND 0x0F)
      else ucast (b AND 0x07))"

fun continuation :: "32 word \<Rightarrow> byte list \<Rightarrow> 32 word option" where
  "continuation uc [] = Some uc"
| "continuation uc (b # bs) =
     (if isContinuationByte b then continuation (push_bit 6 uc OR ucast (b AND 0x3F)) bs
      else None)"

definition appendUcs4 :: "32 word \<Rightarrow> QString" where
  "appendUcs4 uc =
     (if uc < 0x10000 then [ucast uc]
      else [ucast (drop_bit 10 uc) + 0xD7C0, ucast (uc AND 0x3FF) + 0xDC00])"

text \<open>
  One character: \<open>b\<close> is the byte just read, \<open>src\<close> what follows it. The result is the
  code units decoded and how many bytes of \<open>src\<close> were consumed, or \<open>None\<close> for a
  decoding error.
\<close>

definition fromUtf8_char :: "byte \<Rightarrow> byte list \<Rightarrow> (QString \<times> nat) option" where
  "fromUtf8_char b src =
     (if b < 0x80 then Some ([ucast b], 0)
      else if b \<le> 0xC1 \<or> 0xF5 \<le> b then None
      else if length src < charsNeeded b - 1 then None
      else (case continuation (first_uc b) (take (charsNeeded b - 1) src) of
              None \<Rightarrow> None
            | Some uc \<Rightarrow>
                if uc < min_uc b \<or> uc AND 0xFFFFF800 = 0xD800 \<or> 0x10FFFF < uc then None
                else Some (appendUcs4 uc, charsNeeded b - 1)))"

function convertToUnicode :: "byte list \<Rightarrow> QString" where
  "convertToUnicode [] = []"
| "convertToUnicode (b # src) =
     (case fromUtf8_char b src of
        None \<Rightarrow> 0xFFFD # convertToUnicode src
      | Some (out, n) \<Rightarrow> out @ convertToUnicode (drop n src))"
  by pat_completeness auto
termination
  by (relation "measure length") auto

definition fromUtf8 :: "byte list \<Rightarrow> QString" where
  "fromUtf8 bytes =
     (if take 3 bytes = [0xEF, 0xBB, 0xBF] then convertToUnicode (drop 3 bytes)
      else convertToUnicode bytes)"

subsection \<open>C strings\<close>

text \<open>
  \<open>constData()\<close> passed where the callee expects a \<open>const char *\<close> string: the callee
  reads up to the first NUL byte.
\<close>

definition constData :: "byte list \<Rightarrow> byte list" where
  "constData bytes = takeWhile (\<lambda>b. b \<noteq> 0) bytes"

text \<open>\<open>QString(const char *)\<close>: the C string decoded as UTF-8.\<close>

definition QString :: "byte list \<Rightarrow> QString" where
  "QString str = fromUtf8 (constData str)"

text \<open>
  \<open>GpgME::Data(buffer, size)\<close>: a data object holding the first \<open>size\<close> bytes at
  \<open>buffer\<close>. The wrapper always passes a \<open>size\<close> that is at most the length of the
  byte array (lemma \<open>size_le_toUtf8\<close> below), so the read stays inside the array.
\<close>

definition Data :: "byte list \<Rightarrow> nat \<Rightarrow> byte list" where
  "Data buffer len = take len buffer"

text \<open>\<open>QString::contains(const QString &)\<close>: case-sensitive substring search.\<close>

fun contains :: "QString \<Rightarrow> QString \<Rightarrow> bool" where
  "contains [] str = (str = [])"
| "contains (c # cs) str = (prefix str (c # cs) \<or> contains cs str)"

section \<open>The backend\<close>

text \<open>
  GpgME++ is the wrapper's collaborator. The model keeps of it what the wrapper observes.

  A \<open>GpgME::Error\<close> is read in three ways: through its boolean conversion
  (\<open>if (err)\<close>, \<open>!err\<close>, \<open>error() == 0\<close>), through \<open>code()\<close> and through
  \<open>asString()\<close>. The three are fields of the model and nothing is assumed about how
  they relate.
\<close>

record Error =
  isError :: bool
  code :: int
  asString :: "byte list"

text \<open>
  A \<open>GpgME::Key\<close>: its primary fingerprint (a C string) and the names of its user ids,
  which \<open>getUIDsForKey\<close> collects.
\<close>

record Key =
  primaryFingerprint :: "byte list"
  uids :: "byte list list"

datatype EncryptionFlags = AlwaysTrust | Symmetric

text \<open>
  Every operation of the wrapper creates its own context for the OpenPGP protocol
  (\<open>createForProtocol\<close>, taken to succeed), so a backend is given by the answers of
  such a fresh context:
  \<^item> \<open>startKeyListing pattern secretOnly\<close> is the error of starting a listing;
  \<^item> \<open>nextKey pattern n\<close> is the key and the error that the call number \<open>n\<close>
    (counted from 0) of \<open>nextKey\<close> gives in the listing started for \<open>pattern\<close>;
  \<^item> \<open>key fingerprint secret\<close> is the direct lookup \<open>ctx->key(fingerprint, err, secret)\<close>;
  \<^item> \<open>decrypt\<close>, \<open>encryptSymmetrically\<close> and \<open>encrypt\<close> give the content of the output
    data object and the error, on a context with armor and text mode set.
\<close>

record Context =
  startKeyListing :: "byte list \<Rightarrow> bool \<Rightarrow> Error"
  nextKey :: "byte list \<Rightarrow> nat \<Rightarrow> Key \<times> Error"
  key :: "byte list \<Rightarrow> bool \<Rightarrow> Key \<times> Error"
  decrypt :: "byte list \<Rightarrow> byte list \<times> Error"
  encryptSymmetrically :: "byte list \<Rightarrow> byte list \<times> Error"
  encrypt :: "Key list \<Rightarrow> byte list \<Rightarrow> EncryptionFlags \<Rightarrow> byte list \<times> Error"

text \<open>
  The calls a wrapper operation makes on the backend, in order, with their arguments.
  Each operation of the model returns this log beside its result.
\<close>

datatype BackendCall =
    StartKeyListing "byte list" bool
  | NextKey
  | KeyLookup "byte list" bool
  | Decrypt "byte list"
  | EncryptSymmetrically "byte list"
  | Encrypt "Key list" "byte list" EncryptionFlags

section \<open>The wrapper\<close>

record GPGOperationResult =
  resultString :: QString
  keyFound :: bool
  decryptionSuccess :: bool
  errorMessage :: QString

text \<open>A default-constructed \<open>GPGOperationResult\<close>.\<close>

definition newResult :: GPGOperationResult where
  "newResult =
     \<lparr>resultString = [], keyFound = False, decryptionSuccess = False, errorMessage = []\<rparr>"

text \<open>
  Modelled from the spec: \<open>GPGKeyDetails.hpp\<close> is not among the sources. A KeyDetails is
  a snapshot of a key: its fingerprint and the ordered sequence of its mail addresses.
  How it is filled from a key (\<open>loadFromGPGMeKey\<close>) is a parameter of \<open>loadKeys\<close>.
\<close>

record GPGKeyDetails =
  fingerprint :: QString
  mailAdresses :: "QString list"

record GPGMeWrapper =
  m_keys :: "GPGKeyDetails list"
  m_selectedKeyIndex :: "32 word"

definition getUIDsForKey :: "Key \<Rightarrow> QString list" where
  "getUIDsForKey k = map QString (uids k)"

definition selectedKeyIndex :: "GPGMeWrapper \<Rightarrow> 32 word" where
  "selectedKeyIndex this = m_selectedKeyIndex this"

definition setSelectedKeyIndex :: "GPGMeWrapper \<Rightarrow> 32 word \<Rightarrow> GPGMeWrapper" where
  "setSelectedKeyIndex this newSelectedKeyIndex =
     this\<lparr>m_selectedKeyIndex := newSelectedKeyIndex\<rparr>"

subsection \<open>\<open>listKeys\<close>\<close>

text \<open>
  The \<open>while (true)\<close> loop of \<open>listKeys\<close>: \<open>n\<close> calls of \<open>nextKey\<close> have been made and
  \<open>keys\<close> collected. It leaves only when \<open>code()\<close> of the error is not zero, so on a
  backend that never reports one it does not return: the value \<open>None\<close>. The result is
  the keys and the number of \<open>nextKey\<close> calls made.
\<close>

partial_function (option) nextKeys ::
  "Context \<Rightarrow> byte list \<Rightarrow> nat \<Rightarrow> Key list \<Rightarrow> (Key list \<times> nat) option" where
  "nextKeys ctx pattern n keys =
     (case nextKey ctx pattern n of
        (k, err) \<Rightarrow>
          if code err \<noteq> 0 then Some (keys, Suc n)
          else nextKeys ctx pattern (Suc n) (keys @ [k]))"

declare nextKeys.simps [code]

definition listKeys :: "Context \<Rightarrow> QString \<Rightarrow> (Key list \<times> BackendCall list) option" where
  "listKeys ctx searchPattern =
     (let pattern = constData (toUtf8 searchPattern);
          err = startKeyListing ctx pattern False
      in if isError err then Some ([], [StartKeyListing pattern False])
         else (case nextKeys ctx pattern 0 [] of
                 None \<Rightarrow> None
               | Some (keys, n) \<Rightarrow>
                   Some (keys, StartKeyListing pattern False # replicate n NextKey)))"

subsection \<open>\<open>loadKeys\<close>, \<open>getKeys\<close>, \<open>getNumKeys\<close>\<close>

text \<open>
  The \<open>for\<close> loop of \<open>loadKeys\<close>: one details record per key, appended in order. The
  error message of the empty case goes into a local result that is dropped.
\<close>

fun appendDetails ::
  "(Key \<Rightarrow> GPGKeyDetails) \<Rightarrow> Key list \<Rightarrow> GPGKeyDetails list \<Rightarrow> GPGKeyDetails list" where
  "appendDetails loadFromGPGMeKey [] ds = ds"
| "appendDetails loadFromGPGMeKey (k # keys) ds =
     appendDetails loadFromGPGMeKey keys (ds @ [loadFromGPGMeKey k])"

definition loadKeys ::
  "(Key \<Rightarrow> GPGKeyDetails) \<Rightarrow> Context \<Rightarrow> GPGMeWrapper \<Rightarrow> QString \<Rightarrow>
     (GPGMeWrapper \<times> BackendCall list) option" where
  "loadKeys loadFromGPGMeKey ctx this searchPattern =
     (let cleared = this\<lparr>m_keys := []\<rparr>
      in case listKeys ctx searchPattern of
           None \<Rightarrow> None
         | Some (keys, calls) \<Rightarrow>
             if length keys = 0 then Some (cleared, calls)
             else Some (cleared\<lparr>m_keys := appendDetails loadFromGPGMeKey keys (m_keys cleared)\<rparr>,
                        calls))"

definition getKeys :: "GPGMeWrapper \<Rightarrow> GPGKeyDetails list" where
  "getKeys this = m_keys this"

definition getNumKeys :: "GPGMeWrapper \<Rightarrow> nat" where
  "getNumKeys this = length (m_keys this)"

text \<open>
  The constructor runs \<open>loadKeys("")\<close> and does not initialise \<open>m_selectedKeyIndex\<close>:
  the index the object starts with is whatever \<open>uninitialised\<close> is.
\<close>

definition newGPGMeWrapper ::
  "(Key \<Rightarrow> GPGKeyDetails) \<Rightarrow> Context \<Rightarrow> 32 word \<Rightarrow> (GPGMeWrapper \<times> BackendCall list) option" where
  "newGPGMeWrapper loadFromGPGMeKey ctx uninitialised =
     loadKeys loadFromGPGMeKey ctx \<lparr>m_keys = [], m_selectedKeyIndex = uninitialised\<rparr> []"

subsection \<open>\<open>isPreferredKey\<close>\<close>

fun anyContains :: "QString list \<Rightarrow> QString \<Rightarrow> bool" where
  "anyContains [] mailAddress = False"
| "anyContains (it # rest) mailAddress =
     (if contains it mailAddress then True else anyContains rest mailAddress)"

definition isPreferredKey :: "GPGKeyDetails \<Rightarrow> QString \<Rightarrow> bool" where
  "isPreferredKey d mailAddress = anyContains (mailAdresses d) mailAddress"

subsection \<open>\<open>decryptString\<close>\<close>

definition decryptString ::
  "Context \<Rightarrow> QString \<Rightarrow> QString \<Rightarrow> GPGOperationResult \<times> BackendCall list" where
  "decryptString ctx inputString fingerprint' =
     (let result = newResult;
          fpr = constData (toUtf8 fingerprint');
          (k, err) = key ctx fpr False
      in if isError err then
           (result\<lparr>errorMessage :=
               errorMessage result @ (QLatin ''Error finding key: '' @ QString (asString err))\<rparr>,
            [KeyLookup fpr False])
         else
           let result = result\<lparr>keyFound := True\<rparr>;
               len = length inputString;
               bar = toUtf8 inputString;
               encryptedString = Data bar len;
               (decryptedString, d_err) = decrypt ctx encryptedString;
               calls = [KeyLookup fpr False, Decrypt encryptedString]
           in if \<not> isError d_err then
                (result\<lparr>decryptionSuccess := True, resultString := fromUtf8 decryptedString\<rparr>,
                 calls)
              else
                (result\<lparr>errorMessage := errorMessage result @ QString (asString d_err)\<rparr>,
                 calls))"

subsection \<open>\<open>encryptString\<close>\<close>

text \<open>
  The scan of \<open>encryptString\<close> for the first key with the selected fingerprint; the
  \<open>break\<close> ends it at the first match. The listing and the scan come first in the
  function, before \<open>symmetricEncryption_\<close> is tested. The value \<open>Symmetric\<close> that the
  symmetric branch assigns to \<open>flags\<close> is passed to no call.
\<close>

fun findKey ::
  "Key list \<Rightarrow> QString \<Rightarrow> GPGOperationResult \<Rightarrow> Key list \<Rightarrow> GPGOperationResult \<times> Key list" where
  "findKey [] fingerprint' result selectedKeys = (result, selectedKeys)"
| "findKey (k # keys) fingerprint' result selectedKeys =
     (if QString (primaryFingerprint k) = fingerprint'
      then (result\<lparr>keyFound := True\<rparr>, selectedKeys @ [k])
      else findKey keys fingerprint' result selectedKeys)"

definition encryptString ::
  "Context \<Rightarrow> QString \<Rightarrow> QString \<Rightarrow> QString \<Rightarrow> bool \<Rightarrow>
     (GPGOperationResult \<times> BackendCall list) option" where
  "encryptString ctx inputString fingerprint' recipientMail symmetricEncryption =
     (case listKeys ctx recipientMail of
        None \<Rightarrow> None
      | Some (keys, listing) \<Rightarrow>
          let (result, selectedKeys) = findKey keys fingerprint' newResult [];
              len = length inputString;
              bar = toUtf8 inputString;
              plainTextData = Data bar len
          in if symmetricEncryption then
               (let (ciphertext, err) = encryptSymmetrically ctx plainTextData;
                    calls = listing @ [EncryptSymmetrically plainTextData]
                in if \<not> isError err then
                     Some (result\<lparr>decryptionSuccess := True,
                                   resultString := fromUtf8 ciphertext\<rparr>, calls)
                   else
                     Some (result\<lparr>resultString :=
                             resultString result @
                               (QLatin ''ERROR in syymetric encryption: '' @ QString (asString err))\<rparr>,
                           calls))
             else
               (let (ciphertext, enErr) = encrypt ctx selectedKeys plainTextData AlwaysTrust;
                    calls = listing @ [Encrypt selectedKeys plainTextData AlwaysTrust]
                in if \<not> isError enErr then
                     Some (result\<lparr>decryptionSuccess := True,
                                   resultString := fromUtf8 ciphertext\<rparr>, calls)
                   else
                     Some (result\<lparr>errorMessage :=
                             errorMessage result @
                               (QLatin ''Encryption Failed: '' @ QString (asString enErr))\<rparr>,
                           calls)))"

section \<open>A sample backend\<close>

text \<open>
  A small backend on which the operations can be run: a key ring of two keys, and a toy
  cipher whose ciphertext is ASCII text (two letters \<open>A\<close> to \<open>P\<close> per byte) and
  which decrypts what it encrypted.
\<close>

definition ascii :: "string \<Rightarrow> byte list" where
  "ascii s = map of_char s"

definition noError :: Error where
  "noError = \<lparr>isError = False, code = 0, asString = ascii ''Success''\<rparr>"

definition eof :: Error where
  "eof = \<lparr>isError = True, code = 16383, asString = ascii ''End of file''\<rparr>"

definition generalError :: Error where
  "generalError = \<lparr>isError = True, code = 1, asString = ascii ''General error''\<rparr>"

definition nullKey :: Key where
  "nullKey = \<lparr>primaryFingerprint = [], uids = []\<rparr>"

definition aliceKey :: Key where
  "aliceKey = \<lparr>primaryFingerprint = ascii ''A1'', uids = [ascii ''alice'']\<rparr>"

definition bobKey :: Key where
  "bobKey = \<lparr>primaryFingerprint = ascii ''B2'', uids = [ascii ''bob'']\<rparr>"

definition toyArmor :: "byte list \<Rightarrow> byte list" where
  "toyArmor bytes = concat (map (\<lambda>b. [0x41 + drop_bit 4 b, 0x41 + (b AND 0x0F)]) bytes)"

fun toyDearmor :: "byte list \<Rightarrow> byte list option" where
  "toyDearmor [] = Some []"
| "toyDearmor [hi] = None"
| "toyDearmor (hi # lo # rest) =
     map_option (\<lambda>bytes. (push_bit 4 (hi - 0x41) OR (lo - 0x41)) # bytes) (toyDearmor rest)"

definition sampleContext :: Context where
  "sampleContext =
     \<lparr>startKeyListing = (\<lambda>pattern secretOnly. noError),
      nextKey = (\<lambda>pattern n.
         if n = 0 then (aliceKey, noError)
         else if n = 1 then (bobKey, noError)
         else (nullKey, eof)),
      key = (\<lambda>fpr secret.
         if fpr = primaryFingerprint aliceKey then (aliceKey, noError)
         else if fpr = primaryFingerprint bobKey then (bobKey, noError)
         else (nullKey, eof)),
      decrypt = (\<lambda>cipher.
         case toyDearmor cipher of
           Some plain \<Rightarrow> (plain, noError)
         | None \<Rightarrow> ([], generalError)),
      encryptSymmetrically = (\<lambda>plain. (toyArmor plain, noError)),
      encrypt = (\<lambda>recipients plain flags.
         if recipients = [] then ([], generalError) else (toyArmor plain, noError))\<rparr>"

text \<open>The same backend with no passphrase to be had: symmetric encryption fails.\<close>

definition noPassphraseContext :: Context where
  "noPassphraseContext =
     sampleContext\<lparr>encryptSymmetrically := (\<lambda>plain. ([], generalError))\<rparr>"

text \<open>The same backend whose listing breaks after the first key.\<close>

definition brokenListingContext :: Context where
  "brokenListingContext =
     sampleContext\<lparr>nextKey := (\<lambda>pattern n.
        if n = 0 then (aliceKey, noError) else (nullKey, generalError))\<rparr>"

text \<open>The same backend whose listing does not start.\<close>

definition noListingContext :: Context where
  "noListingContext = sampleContext\<lparr>startKeyListing := (\<lambda>pattern secretOnly. generalError)\<rparr>"

text \<open>A loader for the sample: the fingerprint and the user ids of the key, as strings.\<close>

definition sampleDetails :: "Key \<Rightarrow> GPGKeyDetails" where
  "sampleDetails k =
     \<lparr>fingerprint = QString (primaryFingerprint k), mailAdresses = map QString (uids k)\<rparr>"

section \<open>Properties\<close>

lemmas sample_defs = sampleContext_def noPassphraseContext_def brokenListingContext_def
  noListingContext_def noError_def eof_def generalError_def aliceKey_def bobKey_def nullKey_def
  ascii_def toyArmor_def

lemmas string_defs = QLatin_def QString_def constData_def fromUtf8_def fromUtf8_char_def Data_def
  utf8_two_def utf8_three_def utf8_four_def isSurrogate_def charsNeeded_def min_uc_def
  first_uc_def appendUcs4_def isContinuationByte_def

subsection \<open>Strings\<close>

text \<open>
  A string never has more code units than its UTF-8 encoding has bytes, so the
  \<open>Data(bar.constData(), length)\<close> of the wrapper reads inside \<open>bar\<close>; and for a string
  of ASCII characters the two lengths agree.
\<close>

lemma size_le_toUtf8: "length s \<le> length (toUtf8 s)"
  by (induction s rule: toUtf8.induct)
     (auto simp: utf8_two_def utf8_three_def utf8_four_def)

lemma toUtf8_ascii: "\<forall>u\<in>set s. u < 0x80 \<Longrightarrow> toUtf8 s = map ucast s"
  by (induction s rule: toUtf8.induct) auto

lemma ascii_buffer_whole:
  "\<forall>u\<in>set s. u < 0x80 \<Longrightarrow> Data (toUtf8 s) (length s) = toUtf8 s"
  by (simp add: toUtf8_ascii Data_def)

text \<open>On ASCII text the two conversions are inverse to each other.\<close>

lemma ucast_byte_qchar: "(ucast (ucast (b :: byte) :: qchar) :: byte) = b"
  by (rule bit_word_eqI) (simp add: bit_simps)

lemma ucast_qchar_byte:
  assumes "(u :: qchar) < 0x80"
  shows "(ucast (ucast u :: byte) :: qchar) = u"
proof -
  from assms have "unat u < 128" by (simp add: word_less_nat_alt)
  then have "unat (ucast (ucast u :: byte) :: qchar) = unat u"
    by (simp add: unsigned_ucast_eq unsigned_take_bit_eq take_bit_nat_eq_self)
  then show ?thesis by (simp add: word_unat_eq_iff)
qed

lemma ucast_ascii_byte:
  assumes "(u :: qchar) < 0x80"
  shows "(ucast u :: byte) < 0x80"
proof -
  from assms have "unat u < 128" by (simp add: word_less_nat_alt)
  then have "unat (ucast u :: byte) < 128"
    by (simp add: unsigned_ucast_eq take_bit_nat_eq_self)
  then show ?thesis by (simp add: word_less_nat_alt)
qed

lemma convertToUnicode_ascii:
  "\<forall>b\<in>set bs. b < 0x80 \<Longrightarrow> convertToUnicode bs = map ucast bs"
  by (induction bs) (auto simp: fromUtf8_char_def)

lemma fromUtf8_ascii:
  assumes "\<forall>b\<in>set bs. b < 0x80"
  shows "fromUtf8 bs = map ucast bs"
proof (cases bs)
  case Nil
  then show ?thesis by (simp add: fromUtf8_def)
next
  case (Cons b src)
  with assms have "b < 0x80" by simp
  then have "b \<noteq> 0xEF" by auto
  then have "take 3 bs \<noteq> [0xEF, 0xBB, 0xBF]" using Cons by auto
  then show ?thesis using assms by (simp add: fromUtf8_def convertToUnicode_ascii)
qed

lemma fromUtf8_toUtf8_ascii:
  "\<forall>u\<in>set s. u < 0x80 \<Longrightarrow> fromUtf8 (toUtf8 s) = s"
  by (simp add: toUtf8_ascii fromUtf8_ascii ucast_ascii_byte ucast_qchar_byte map_idI)

lemma toUtf8_fromUtf8_ascii:
  assumes "\<forall>b\<in>set bs. b < 0x80"
  shows "Data (toUtf8 (fromUtf8 bs)) (length (fromUtf8 bs)) = bs"
proof -
  have "\<forall>u\<in>set (map ucast bs :: qchar list). u < 0x80"
  proof
    fix u :: qchar
    assume "u \<in> set (map ucast bs)"
    then obtain b where b: "b \<in> set bs" "u = ucast b" by auto
    with assms have "unat b < 128" by (simp add: word_less_nat_alt)
    then have "unat (ucast b :: qchar) < 128"
      by (simp add: unsigned_ucast_eq take_bit_nat_eq_self)
    with b show "u < 0x80" by (simp add: word_less_nat_alt)
  qed
  then show ?thesis using assms
    by (simp add: fromUtf8_ascii toUtf8_ascii ucast_byte_qchar map_idI Data_def)
qed

lemma contains_iff: "contains s str \<longleftrightarrow> (\<exists>ps ss. s = ps @ str @ ss)"
proof (induction s)
  case Nil
  show ?case by auto
next
  case (Cons c cs)
  show ?case
  proof
    assume "contains (c # cs) str"
    then consider "prefix str (c # cs)" | "contains cs str" by auto
    then show "\<exists>ps ss. c # cs = ps @ str @ ss"
    proof cases
      case 1
      then obtain ss where "c # cs = str @ ss" by (auto simp: prefix_def)
      then have "c # cs = [] @ str @ ss" by simp
      then show ?thesis by blast
    next
      case 2
      with Cons obtain ps ss where "cs = ps @ str @ ss" by blast
      then have "c # cs = (c # ps) @ str @ ss" by simp
      then show ?thesis by blast
    qed
  next
    assume "\<exists>ps ss. c # cs = ps @ str @ ss"
    then obtain ps ss where eq: "c # cs = ps @ str @ ss" by blast
    show "contains (c # cs) str"
    proof (cases ps)
      case Nil
      with eq have "prefix str (c # cs)" by (simp add: prefix_def)
      then show ?thesis by simp
    next
      case (Cons p ps')
      with eq have "cs = ps' @ str @ ss" by simp
      with Cons.IH have "contains cs str" by blast
      then show ?thesis by simp
    qed
  qed
qed

lemma anyContains_iff:
  "anyContains addrs mail \<longleftrightarrow> (\<exists>a\<in>set addrs. contains a mail)"
  by (induction addrs) auto

subsection \<open>The listing loop\<close>

lemma nextKeys_stop:
  "code (snd (nextKey ctx pattern n)) \<noteq> 0 \<Longrightarrow>
   nextKeys ctx pattern n keys = Some (keys, Suc n)"
  by (subst nextKeys.simps) (simp add: case_prod_beta)

lemma nextKeys_go:
  "code (snd (nextKey ctx pattern n)) = 0 \<Longrightarrow>
   nextKeys ctx pattern n keys =
     nextKeys ctx pattern (Suc n) (keys @ [fst (nextKey ctx pattern n)])"
  by (subst nextKeys.simps) (simp add: case_prod_beta)

text \<open>
  The loop returns at the first call of \<open>nextKey\<close> whose error has a code, with the keys
  of the calls before it.
\<close>

lemma nextKeys_first_error:
  assumes "m \<le> n" "code (snd (nextKey ctx pattern n)) \<noteq> 0"
    and "\<forall>i. m \<le> i \<and> i < n \<longrightarrow> code (snd (nextKey ctx pattern i)) = 0"
  shows "nextKeys ctx pattern m keys =
         Some (keys @ map (\<lambda>i. fst (nextKey ctx pattern i)) [m..<n], Suc n)"
  using assms
proof (induction "n - m" arbitrary: m keys)
  case 0
  then have "m = n" by simp
  with 0 show ?case by (simp add: nextKeys_stop)
next
  case (Suc d)
  then have lt: "m < n" by simp
  with Suc.prems have z: "code (snd (nextKey ctx pattern m)) = 0" by simp
  have "nextKeys ctx pattern (Suc m) (keys @ [fst (nextKey ctx pattern m)]) =
        Some ((keys @ [fst (nextKey ctx pattern m)]) @
              map (\<lambda>i. fst (nextKey ctx pattern i)) [Suc m..<n], Suc n)"
    using Suc.hyps Suc.prems lt by (intro Suc.hyps(1)) auto
  then show ?case using lt z by (simp add: nextKeys_go upt_conv_Cons)
qed

text \<open>It returns only if some call reports a code; on a backend that never does, it runs on.\<close>

lemma nextKeys_Some_error:
  assumes "nextKeys ctx pattern n keys = Some r"
  shows "\<exists>i. code (snd (nextKey ctx pattern i)) \<noteq> 0"
  by (rule nextKeys.raw_induct
        [where P = "\<lambda>ctx pattern n keys r. \<exists>i. code (snd (nextKey ctx pattern i)) \<noteq> 0",
         OF _ assms])
     (auto simp: case_prod_beta split: if_splits)

lemma nextKeys_never:
  assumes "\<forall>n. code (snd (nextKey ctx pattern n)) = 0"
  shows "nextKeys ctx pattern n keys = None"
proof (cases "nextKeys ctx pattern n keys")
  case None
  then show ?thesis .
next
  case (Some r)
  from nextKeys_Some_error [OF this] assms show ?thesis by blast
qed

lemma listKeys_start_error:
  "isError (startKeyListing ctx (constData (toUtf8 P)) False) \<Longrightarrow>
   listKeys ctx P = Some ([], [StartKeyListing (constData (toUtf8 P)) False])"
  by (simp add: listKeys_def Let_def)

lemma listKeys_first_error:
  assumes "\<not> isError (startKeyListing ctx (constData (toUtf8 P)) False)"
    and "code (snd (nextKey ctx (constData (toUtf8 P)) n)) \<noteq> 0"
    and "\<forall>i<n. code (snd (nextKey ctx (constData (toUtf8 P)) i)) = 0"
  shows "listKeys ctx P =
     Some (map (\<lambda>i. fst (nextKey ctx (constData (toUtf8 P)) i)) [0..<n],
           StartKeyListing (constData (toUtf8 P)) False # replicate (Suc n) NextKey)"
proof -
  have "nextKeys ctx (constData (toUtf8 P)) 0 [] =
        Some ([] @ map (\<lambda>i. fst (nextKey ctx (constData (toUtf8 P)) i)) [0..<n], Suc n)"
    using assms(2,3) by (intro nextKeys_first_error) auto
  then show ?thesis using assms(1) by (simp add: listKeys_def Let_def)
qed

lemma listKeys_diverges:
  assumes "\<not> isError (startKeyListing ctx (constData (toUtf8 P)) False)"
    and "\<forall>n. code (snd (nextKey ctx (constData (toUtf8 P)) n)) = 0"
  shows "listKeys ctx P = None"
  using assms by (simp add: listKeys_def Let_def nextKeys_never)

lemma appendDetails_map: "appendDetails f keys ds = ds @ map f keys"
  by (induction keys arbitrary: ds) auto

subsection \<open>The fingerprint scan\<close>

lemma findKey_no_match:
  "\<forall>k\<in>set keys. QString (primaryFingerprint k) \<noteq> fp \<Longrightarrow>
   findKey keys fp result selectedKeys = (result, selectedKeys)"
  by (induction keys) auto

lemma findKey_first_match:
  "\<forall>k'\<in>set before. QString (primaryFingerprint k') \<noteq> fp \<Longrightarrow>
   QString (primaryFingerprint k) = fp \<Longrightarrow>
   findKey (before @ k # after) fp result selectedKeys =
     (result\<lparr>keyFound := True\<rparr>, selectedKeys @ [k])"
  by (induction before) auto

lemma findKey_keyFound:
  "keyFound (fst (findKey keys fp result selectedKeys)) =
     (keyFound result \<or> (\<exists>k\<in>set keys. QString (primaryFingerprint k) = fp))"
  by (induction keys) auto

lemma findKey_decryptionSuccess:
  "decryptionSuccess (fst (findKey keys fp result selectedKeys)) = decryptionSuccess result"
  by (induction keys) auto

text \<open>\<open>encryptString\<close> once the listing has returned: the rest of its body.\<close>

lemma encryptString_listed:
  assumes "listKeys ctx recipientMail = Some (keys, listing)"
  shows "encryptString ctx inputString fp recipientMail symmetric =
    (let (result, selectedKeys) = findKey keys fp newResult [];
         len = length inputString;
         bar = toUtf8 inputString;
         plainTextData = Data bar len
     in if symmetric then
          (let (ciphertext, err) = encryptSymmetrically ctx plainTextData;
               calls = listing @ [EncryptSymmetrically plainTextData]
           in if \<not> isError err then
                Some (result\<lparr>decryptionSuccess := True,
                              resultString := fromUtf8 ciphertext\<rparr>, calls)
              else
                Some (result\<lparr>resultString :=
                        resultString result @
                          (QLatin ''ERROR in syymetric encryption: '' @ QString (asString err))\<rparr>,
                      calls))
        else
          (let (ciphertext, enErr) = encrypt ctx selectedKeys plainTextData AlwaysTrust;
               calls = listing @ [Encrypt selectedKeys plainTextData AlwaysTrust]
           in if \<not> isError enErr then
                Some (result\<lparr>decryptionSuccess := True,
                              resultString := fromUtf8 ciphertext\<rparr>, calls)
              else
                Some (result\<lparr>errorMessage :=
                        errorMessage result @
                          (QLatin ''Encryption Failed: '' @ QString (asString enErr))\<rparr>,
                      calls)))"
  using assms by (simp add: encryptString_def)

lemma encryptString_diverges:
  "listKeys ctx recipientMail = None \<Longrightarrow>
   encryptString ctx inputString fp recipientMail symmetric = None"
  by (simp add: encryptString_def)

lemma decryptString_calls:
  "\<not> isError (snd (key ctx (constData (toUtf8 fp)) False)) \<Longrightarrow>
   snd (decryptString ctx inputString fp) =
     [KeyLookup (constData (toUtf8 fp)) False,
      Decrypt (take (length inputString) (toUtf8 inputString))]"
  by (simp add: decryptString_def Let_def case_prod_beta Data_def)

subsection \<open>The round trip on ASCII text\<close>

text \<open>
  Where the input buffer is whole, the wrapper adds nothing of its own to the backend's
  work: for a text of ASCII characters, a backend that finds the key, encrypts to ASCII
  ciphertext and decrypts that ciphertext to the bytes it was given, decrypting the
  result of an encryption gives the text back.
\<close>

lemma round_trip_ascii:
  assumes listed: "listKeys ctx mail = Some (before @ k # after, listing)"
    and first: "\<forall>k'\<in>set before. QString (primaryFingerprint k') \<noteq> fp"
    and match: "QString (primaryFingerprint k) = fp"
    and lookup: "\<not> isError (snd (key ctx (constData (toUtf8 fp)) False))"
    and enc: "encrypt ctx [k] (toUtf8 text) AlwaysTrust = (cipher, e1)" "\<not> isError e1"
    and armor: "\<forall>b\<in>set cipher. b < 0x80"
    and dec: "decrypt ctx cipher = (toUtf8 text, e2)" "\<not> isError e2"
    and ascii: "\<forall>u\<in>set text. u < 0x80"
  shows "\<exists>r calls. encryptString ctx text fp mail False = Some (r, calls)
     \<and> resultString (fst (decryptString ctx (resultString r) fp)) = text"
proof -
  have f: "findKey (before @ k # after) fp newResult [] = (newResult\<lparr>keyFound := True\<rparr>, [k])"
    using findKey_first_match [OF first match, of after newResult "[]"] by simp
  have e: "encryptString ctx text fp mail False =
     Some (newResult\<lparr>keyFound := True, decryptionSuccess := True,
                     resultString := fromUtf8 cipher\<rparr>,
           listing @ [Encrypt [k] (toUtf8 text) AlwaysTrust])"
    by (subst encryptString_listed [OF listed])
       (simp add: f ascii_buffer_whole [OF ascii] enc)
  have d: "resultString (fst (decryptString ctx (fromUtf8 cipher) fp)) = text"
    using lookup
    by (simp add: decryptString_def Let_def case_prod_beta toUtf8_fromUtf8_ascii [OF armor] dec
        fromUtf8_toUtf8_ascii [OF ascii])
  from e d show ?thesis by simp
qed

subsection \<open>The sample backend\<close>

lemma toy_roundtrip: "toyDearmor (toyArmor bytes) = Some bytes"
proof (induction bytes)
  case Nil
  show ?case by (simp add: toyArmor_def)
next
  case (Cons b bs)
  have m: "(0x0F :: byte) = mask 4"
    by (simp add: mask_eq_exp_minus_1)
  have "push_bit 4 (drop_bit 4 b) OR (b AND 0x0F) = b"
    unfolding m by (rule bit_word_eqI) (auto simp: bit_simps)
  then show ?case using Cons by (simp add: toyArmor_def)
qed

text \<open>The sample backend has a working key pair: it decrypts what it encrypted for a key.\<close>

lemma sample_valid_key_pair:
  "decrypt sampleContext (fst (encrypt sampleContext [aliceKey] plain AlwaysTrust)) =
     (plain, noError)"
  by (simp add: sampleContext_def toy_roundtrip)

lemma sample_listKeys:
  "listKeys sampleContext P =
     Some ([aliceKey, bobKey],
           [StartKeyListing (constData (toUtf8 P)) False, NextKey, NextKey, NextKey])"
  by (simp add: listKeys_def sampleContext_def noError_def eof_def nextKeys_stop nextKeys_go
      Let_def)

lemma noPassphrase_listKeys:
  "listKeys noPassphraseContext P =
     Some ([aliceKey, bobKey],
           [StartKeyListing (constData (toUtf8 P)) False, NextKey, NextKey, NextKey])"
  by (simp add: listKeys_def noPassphraseContext_def sampleContext_def noError_def eof_def
      nextKeys_stop nextKeys_go Let_def)

lemma noListing_listKeys:
  "listKeys noListingContext P = Some ([], [StartKeyListing (constData (toUtf8 P)) False])"
  by (simp add: listKeys_def noListingContext_def generalError_def Let_def)

lemma sample_listKeys_alice:
  "listKeys sampleContext (QLatin ''alice'') =
     Some ([aliceKey, bobKey],
           [StartKeyListing (ascii ''alice'') False, NextKey, NextKey, NextKey])"
  by (simp add: sample_listKeys string_defs ascii_def)

text \<open>The ASCII round trip applies to the sample backend: the text \<open>hi\<close> comes back.\<close>

lemma round_trip_ascii_sample:
  "\<exists>r calls.
     encryptString sampleContext (QLatin ''hi'') (QLatin ''A1'') (QLatin ''alice'') False =
       Some (r, calls)
     \<and> resultString (fst (decryptString sampleContext (resultString r) (QLatin ''A1''))) =
         QLatin ''hi''"
proof (rule round_trip_ascii [where before = "[]" and k = aliceKey and after = "[bobKey]"])
  show "listKeys sampleContext (QLatin ''alice'') =
        Some ([] @ aliceKey # [bobKey],
              [StartKeyListing (ascii ''alice'') False, NextKey, NextKey, NextKey])"
    using sample_listKeys_alice by simp
  show "\<forall>k'\<in>set []. QString (primaryFingerprint k') \<noteq> QLatin ''A1''"
    by simp
  show "QString (primaryFingerprint aliceKey) = QLatin ''A1''"
    by (simp add: sample_defs string_defs)
  show "\<not> isError (snd (key sampleContext (constData (toUtf8 (QLatin ''A1''))) False))"
    by (simp add: sample_defs string_defs)
  show "encrypt sampleContext [aliceKey] (toUtf8 (QLatin ''hi'')) AlwaysTrust =
        (ascii ''GIGJ'', noError)"
    by (simp add: sample_defs string_defs)
  show "\<not> isError noError"
    by (simp add: noError_def)
  show "\<forall>b\<in>set (ascii ''GIGJ''). b < 0x80"
    by (simp add: ascii_def)
  show "decrypt sampleContext (ascii ''GIGJ'') = (toUtf8 (QLatin ''hi''), noError)"
    by (simp add: sample_defs string_defs)
  show "\<not> isError noError"
    by (simp add: noError_def)
  show "\<forall>u\<in>set (QLatin ''hi''). u < 0x80"
    by (simp add: QLatin_def)
qed

section \<open>The claims\<close>

subsection \<open>C1: symmetric encryption and key resolution\<close>

text \<open>
  C1, as amended. \<open>encryptString\<close> lists the keys for the recipient mail and scans them
  for the fingerprint before it looks at \<open>symmetricEncryption_\<close>. So with
  \<open>symmetric = true\<close>, whenever the listing returns, the listing's backend calls are
  made as on the asymmetric path, the one further backend call is the symmetric
  encryption of the input buffer (no key is passed), and \<open>keyFound\<close> is true exactly when
  some listed key has the given fingerprint as its primary fingerprint.
\<close>

theorem encryptString_symmetric_resolves_key:
  assumes "listKeys ctx recipientMail = Some (keys, listing)"
  shows "\<exists>result.
     encryptString ctx inputString fp recipientMail True =
       Some (result,
             listing @ [EncryptSymmetrically (take (length inputString) (toUtf8 inputString))])
     \<and> keyFound result = (\<exists>k\<in>set keys. QString (primaryFingerprint k) = fp)"
proof -
  obtain result selectedKeys where f: "findKey keys fp newResult [] = (result, selectedKeys)"
    by (cases "findKey keys fp newResult []")
  have kf: "keyFound result = (\<exists>k\<in>set keys. QString (primaryFingerprint k) = fp)"
    using findKey_keyFound [of keys fp newResult "[]"] f by (simp add: newResult_def)
  show ?thesis
    using kf by (simp add: encryptString_listed [OF assms] f Let_def Data_def case_prod_beta)
qed

text \<open>On the sample backend, with the fingerprint of the second key listed.\<close>

theorem encryptString_symmetric_resolves_key_witness:
  "listKeys sampleContext (QLatin ''alice'') =
     Some ([aliceKey, bobKey],
           [StartKeyListing (ascii ''alice'') False, NextKey, NextKey, NextKey])
   \<and> (\<exists>result.
       encryptString sampleContext (QLatin ''hi'') (QLatin ''B2'') (QLatin ''alice'') True =
         Some (result, [StartKeyListing (ascii ''alice'') False, NextKey, NextKey, NextKey,
                        EncryptSymmetrically (ascii ''hi'')])
       \<and> keyFound result)"
  using sample_listKeys_alice
    encryptString_symmetric_resolves_key
      [OF sample_listKeys_alice, of "QLatin ''hi''" "QLatin ''B2''"]
  by (simp add: sample_defs string_defs)

text \<open>
  C1 as stated fails: a symmetric encryption with the fingerprint of a listed key starts
  a key listing, fetches the keys and returns \<open>keyFound = true\<close>.
\<close>

theorem encryptString_symmetric_keyFound_counterexample:
  "encryptString sampleContext (QLatin ''hi'') (QLatin ''A1'') (QLatin ''alice'') True =
     Some (\<lparr>resultString = QLatin ''GIGJ'', keyFound = True, decryptionSuccess = True,
             errorMessage = []\<rparr>,
           [StartKeyListing (ascii ''alice'') False, NextKey, NextKey, NextKey,
            EncryptSymmetrically (ascii ''hi'')])"
  by (subst encryptString_listed [OF sample_listKeys])
     (simp add: newResult_def sample_defs string_defs)

subsection \<open>C2: decryption when the key lookup fails\<close>

text \<open>
  C2, as amended. When the direct lookup of the fingerprint reports an error, \<open>decryptString\<close>
  makes no other backend call and returns \<open>keyFound = false\<close>, \<open>decryptionSuccess = false\<close>,
  an empty result string and a non-empty error message, which is exactly the text
  \<open>Error finding key: \<close> followed by the backend's error string.
\<close>

theorem decryptString_key_lookup_failure:
  assumes "isError (snd (key ctx (constData (toUtf8 fp)) False))"
  shows "decryptString ctx inputString fp =
     (\<lparr>resultString = [], keyFound = False, decryptionSuccess = False,
       errorMessage = QLatin ''Error finding key: '' @
          QString (asString (snd (key ctx (constData (toUtf8 fp)) False)))\<rparr>,
      [KeyLookup (constData (toUtf8 fp)) False])
    \<and> errorMessage (fst (decryptString ctx inputString fp)) \<noteq> []"
  using assms
  by (simp add: decryptString_def Let_def case_prod_beta newResult_def QLatin_def)

theorem decryptString_key_lookup_failure_witness:
  "isError (snd (key sampleContext (constData (toUtf8 (QLatin ''C3''))) False))
   \<and> decryptString sampleContext (QLatin ''GI'') (QLatin ''C3'') =
     (\<lparr>resultString = [], keyFound = False, decryptionSuccess = False,
       errorMessage = QLatin ''Error finding key: End of file''\<rparr>,
      [KeyLookup (ascii ''C3'') False])"
proof -
  have h: "isError (snd (key sampleContext (constData (toUtf8 (QLatin ''C3''))) False))"
    by (simp add: sample_defs string_defs)
  show ?thesis
    using h decryptString_key_lookup_failure [OF h, of "QLatin ''GI''"]
    by (simp add: sample_defs string_defs)
qed

text \<open>
  C2 as stated fails: for the unknown fingerprint \<open>C3\<close> the error message is
  \<open>Error finding key: End of file\<close>, in which \<open>C3\<close> does not occur.
\<close>

theorem decryptString_error_omits_fingerprint:
  "decryptString sampleContext (QLatin ''x'') (QLatin ''C3'') =
     (\<lparr>resultString = [], keyFound = False, decryptionSuccess = False,
       errorMessage = QLatin ''Error finding key: End of file''\<rparr>,
      [KeyLookup (ascii ''C3'') False])
   \<and> \<not> contains (QLatin ''Error finding key: End of file'') (QLatin ''C3'')"
  by (simp add: decryptString_def newResult_def sample_defs string_defs)

subsection \<open>C3: failure of the symmetric encryption\<close>

text \<open>
  C3, as amended. On the symmetric path, when the listing has returned and the backend's
  symmetric encryption reports an error, \<open>encryptString\<close> returns
  \<open>decryptionSuccess = false\<close>, and \<open>keyFound\<close> is true exactly when some listed key has
  the given fingerprint as its primary fingerprint.
\<close>

theorem encryptString_symmetric_failure:
  assumes "listKeys ctx recipientMail = Some (keys, listing)"
    and "isError (snd (encryptSymmetrically ctx
           (take (length inputString) (toUtf8 inputString))))"
  shows "\<exists>result calls.
     encryptString ctx inputString fp recipientMail True = Some (result, calls)
     \<and> \<not> decryptionSuccess result
     \<and> keyFound result = (\<exists>k\<in>set keys. QString (primaryFingerprint k) = fp)"
proof -
  obtain result selectedKeys where f: "findKey keys fp newResult [] = (result, selectedKeys)"
    by (cases "findKey keys fp newResult []")
  have kf: "keyFound result = (\<exists>k\<in>set keys. QString (primaryFingerprint k) = fp)"
    using findKey_keyFound [of keys fp newResult "[]"] f by (simp add: newResult_def)
  have ds: "\<not> decryptionSuccess result"
    using findKey_decryptionSuccess [of keys fp newResult "[]"] f by (simp add: newResult_def)
  show ?thesis
    using kf ds assms(2)
    by (simp add: encryptString_listed [OF assms(1)] f Let_def Data_def case_prod_beta)
qed

theorem encryptString_symmetric_failure_witness:
  "isError (snd (encryptSymmetrically noPassphraseContext
       (take (length (QLatin ''hi'')) (toUtf8 (QLatin ''hi'')))))
   \<and> (\<exists>result calls.
       encryptString noPassphraseContext (QLatin ''hi'') (QLatin ''C3'') (QLatin ''alice'') True =
         Some (result, calls)
       \<and> \<not> decryptionSuccess result \<and> \<not> keyFound result)"
proof -
  have h: "isError (snd (encryptSymmetrically noPassphraseContext
       (take (length (QLatin ''hi'')) (toUtf8 (QLatin ''hi'')))))"
    by (simp add: sample_defs)
  show ?thesis
    using h encryptString_symmetric_failure
      [OF noPassphrase_listKeys h, of "QLatin ''C3''" "QLatin ''alice''"]
    by (simp add: sample_defs string_defs)
qed

text \<open>
  C3 as stated fails: with the fingerprint of a listed key and a failing symmetric
  encryption, the result has \<open>keyFound = true\<close>, its error message is empty, and the
  backend's error string stands in the result string.
\<close>

theorem encryptString_symmetric_failure_counterexample:
  "encryptString noPassphraseContext (QLatin ''hi'') (QLatin ''A1'') (QLatin ''alice'') True =
     Some (\<lparr>resultString = QLatin ''ERROR in syymetric encryption: General error'',
             keyFound = True, decryptionSuccess = False, errorMessage = []\<rparr>,
           [StartKeyListing (ascii ''alice'') False, NextKey, NextKey, NextKey,
            EncryptSymmetrically (ascii ''hi'')])"
  by (subst encryptString_listed [OF noPassphrase_listKeys])
     (simp add: newResult_def sample_defs string_defs)

subsection \<open>C4: the input buffer\<close>

text \<open>
  C4 does not hold of the code. The buffer handed to the backend is made from the UTF-8
  bytes of the input but with the input's \<open>size()\<close>, its number of UTF-16 code units, as
  the length. For the one-character input U+00E9, whose encoding is the two bytes C3 A9,
  both \<open>decryptString\<close> and \<open>encryptString\<close> pass a buffer of one byte, C3.
\<close>

theorem input_buffer_truncated:
  "toUtf8 [0xE9] = [0xC3, 0xA9]
   \<and> snd (decryptString sampleContext [0xE9] (QLatin ''A1'')) =
       [KeyLookup (ascii ''A1'') False, Decrypt [0xC3]]
   \<and> map_option snd
        (encryptString sampleContext [0xE9] (QLatin ''A1'') (QLatin ''alice'') False) =
       Some [StartKeyListing (ascii ''alice'') False, NextKey, NextKey, NextKey,
             Encrypt [aliceKey] [0xC3] AlwaysTrust]"
  by (subst encryptString_listed [OF sample_listKeys])
     (simp add: decryptString_def newResult_def sample_defs string_defs)

subsection \<open>C5: the recipient of an asymmetric encryption\<close>

text \<open>
  C5. In an asymmetric encryption, once the listing for the recipient mail has returned:
  if no listed key has the given fingerprint as its primary fingerprint, the backend's
  \<open>encrypt\<close> is still called, with an empty list of recipients, and \<open>keyFound\<close> is
  false; if some key has it, the first such key of the listing is the one recipient
  passed, and \<open>keyFound\<close> is true.
\<close>

theorem encryptString_recipient_selection:
  assumes "listKeys ctx recipientMail = Some (keys, listing)"
  shows "((\<forall>k\<in>set keys. QString (primaryFingerprint k) \<noteq> fp) \<longrightarrow>
      (\<exists>result.
         encryptString ctx inputString fp recipientMail False =
           Some (result, listing @
             [Encrypt [] (take (length inputString) (toUtf8 inputString)) AlwaysTrust])
         \<and> \<not> keyFound result))
   \<and> (\<forall>before k after.
        keys = before @ k # after
        \<and> (\<forall>k'\<in>set before. QString (primaryFingerprint k') \<noteq> fp)
        \<and> QString (primaryFingerprint k) = fp \<longrightarrow>
      (\<exists>result.
         encryptString ctx inputString fp recipientMail False =
           Some (result, listing @
             [Encrypt [k] (take (length inputString) (toUtf8 inputString)) AlwaysTrust])
         \<and> keyFound result))"
proof (intro conjI allI impI)
  assume "\<forall>k\<in>set keys. QString (primaryFingerprint k) \<noteq> fp"
  then have "findKey keys fp newResult [] = (newResult, [])"
    by (rule findKey_no_match)
  then show "\<exists>result.
         encryptString ctx inputString fp recipientMail False =
           Some (result, listing @
             [Encrypt [] (take (length inputString) (toUtf8 inputString)) AlwaysTrust])
         \<and> \<not> keyFound result"
    by (simp add: encryptString_listed [OF assms] Let_def Data_def case_prod_beta newResult_def)
next
  fix before k after
  assume "keys = before @ k # after
        \<and> (\<forall>k'\<in>set before. QString (primaryFingerprint k') \<noteq> fp)
        \<and> QString (primaryFingerprint k) = fp"
  then have "findKey keys fp newResult [] = (newResult\<lparr>keyFound := True\<rparr>, [] @ [k])"
    using findKey_first_match [of before fp k after newResult "[]"] by blast
  then show "\<exists>result.
         encryptString ctx inputString fp recipientMail False =
           Some (result, listing @
             [Encrypt [k] (take (length inputString) (toUtf8 inputString)) AlwaysTrust])
         \<and> keyFound result"
    by (simp add: encryptString_listed [OF assms] Let_def Data_def case_prod_beta newResult_def)
qed

text \<open>
  On the sample backend: the unknown fingerprint \<open>C3\<close> gives a call with no recipient,
  the fingerprint \<open>B2\<close> of the second key listed gives that key as the recipient.
\<close>

theorem encryptString_recipient_selection_witness:
  "(\<exists>result.
      encryptString sampleContext (QLatin ''hi'') (QLatin ''C3'') (QLatin ''alice'') False =
        Some (result, [StartKeyListing (ascii ''alice'') False, NextKey, NextKey, NextKey,
                       Encrypt [] (ascii ''hi'') AlwaysTrust])
      \<and> \<not> keyFound result)
   \<and> (\<exists>result.
      encryptString sampleContext (QLatin ''hi'') (QLatin ''B2'') (QLatin ''alice'') False =
        Some (result, [StartKeyListing (ascii ''alice'') False, NextKey, NextKey, NextKey,
                       Encrypt [bobKey] (ascii ''hi'') AlwaysTrust])
      \<and> keyFound result)"
proof -
  have buf: "take (length (QLatin ''hi'')) (toUtf8 (QLatin ''hi'')) = ascii ''hi''"
    by (simp add: QLatin_def ascii_def)
  have none: "\<forall>k\<in>set [aliceKey, bobKey]. QString (primaryFingerprint k) \<noteq> QLatin ''C3''"
    by (simp add: sample_defs string_defs)
  have first: "[aliceKey, bobKey] = [aliceKey] @ bobKey # []
     \<and> (\<forall>k'\<in>set [aliceKey]. QString (primaryFingerprint k') \<noteq> QLatin ''B2'')
     \<and> QString (primaryFingerprint bobKey) = QLatin ''B2''"
    by (simp add: sample_defs string_defs)
  from encryptString_recipient_selection
    [OF sample_listKeys_alice, of "QLatin ''C3''" "QLatin ''hi''"] none
  have a: "\<exists>result.
      encryptString sampleContext (QLatin ''hi'') (QLatin ''C3'') (QLatin ''alice'') False =
        Some (result, [StartKeyListing (ascii ''alice'') False, NextKey, NextKey, NextKey,
                       Encrypt [] (ascii ''hi'') AlwaysTrust])
      \<and> \<not> keyFound result"
    unfolding buf by simp
  from encryptString_recipient_selection
    [OF sample_listKeys_alice, of "QLatin ''B2''" "QLatin ''hi''"] first
  have b: "\<exists>result.
      encryptString sampleContext (QLatin ''hi'') (QLatin ''B2'') (QLatin ''alice'') False =
        Some (result, [StartKeyListing (ascii ''alice'') False, NextKey, NextKey, NextKey,
                       Encrypt [bobKey] (ascii ''hi'') AlwaysTrust])
      \<and> keyFound result"
    unfolding buf by (metis append_Cons append_Nil)
  from a b show ?thesis by blast
qed

subsection \<open>C6: \<open>loadKeys\<close> and \<open>listKeys\<close>\<close>

text \<open>
  C6. On an unchanged backend, whenever \<open>listKeys(P)\<close> returns a sequence of keys,
  \<open>loadKeys(P)\<close> returns too, makes the same backend calls, and leaves a registry that
  holds, whatever it held before, exactly one details record per listed key in the
  order of the listing (none when the listing is empty); so \<open>getNumKeys()\<close> is the
  length of that sequence. The selected index is not touched.
\<close>

theorem loadKeys_matches_listKeys:
  assumes "listKeys ctx P = Some (keys, calls)"
  shows "\<exists>this'.
     loadKeys loadFromGPGMeKey ctx this P = Some (this', calls)
     \<and> getNumKeys this' = length keys
     \<and> getKeys this' = map loadFromGPGMeKey keys
     \<and> selectedKeyIndex this' = selectedKeyIndex this"
  using assms
  by (cases "keys = []")
     (simp_all add: loadKeys_def Let_def getNumKeys_def getKeys_def selectedKeyIndex_def
        appendDetails_map)

text \<open>
  A registry that held one record, reloaded on the sample backend (two keys) and on the
  backend whose listing does not start (no key).
\<close>

theorem loadKeys_matches_listKeys_witness:
  "(\<exists>this'.
     loadKeys sampleDetails sampleContext
       \<lparr>m_keys = [sampleDetails nullKey], m_selectedKeyIndex = 7\<rparr> (QLatin ''alice'') =
       Some (this', [StartKeyListing (ascii ''alice'') False, NextKey, NextKey, NextKey])
     \<and> getNumKeys this' = 2
     \<and> getKeys this' = [sampleDetails aliceKey, sampleDetails bobKey])
   \<and> (\<exists>this'.
     loadKeys sampleDetails noListingContext
       \<lparr>m_keys = [sampleDetails nullKey], m_selectedKeyIndex = 7\<rparr> [] =
       Some (this', [StartKeyListing [] False])
     \<and> getNumKeys this' = 0
     \<and> getKeys this' = [])"
proof -
  have e: "listKeys noListingContext [] = Some ([], [StartKeyListing [] False])"
    using noListing_listKeys [of "[]"] by (simp add: constData_def)
  from loadKeys_matches_listKeys
    [OF sample_listKeys_alice, of sampleDetails
       "\<lparr>m_keys = [sampleDetails nullKey], m_selectedKeyIndex = 7\<rparr>"]
  have a: "\<exists>this'.
     loadKeys sampleDetails sampleContext
       \<lparr>m_keys = [sampleDetails nullKey], m_selectedKeyIndex = 7\<rparr> (QLatin ''alice'') =
       Some (this', [StartKeyListing (ascii ''alice'') False, NextKey, NextKey, NextKey])
     \<and> getNumKeys this' = 2
     \<and> getKeys this' = [sampleDetails aliceKey, sampleDetails bobKey]"
    by auto
  from loadKeys_matches_listKeys
    [OF e, of sampleDetails "\<lparr>m_keys = [sampleDetails nullKey], m_selectedKeyIndex = 7\<rparr>"]
  have b: "\<exists>this'.
     loadKeys sampleDetails noListingContext
       \<lparr>m_keys = [sampleDetails nullKey], m_selectedKeyIndex = 7\<rparr> [] =
       Some (this', [StartKeyListing [] False])
     \<and> getNumKeys this' = 0
     \<and> getKeys this' = []"
    by auto
  from a b show ?thesis by blast
qed

subsection \<open>C7: \<open>isPreferredKey\<close>\<close>

text \<open>
  C7. \<open>isPreferredKey(details, mail)\<close> is true if and only if \<open>mail\<close> occurs, code unit
  for code unit, as a contiguous part of one of the mail addresses of \<open>details\<close>; it
  is false when \<open>details\<close> has no mail address.
\<close>

theorem isPreferredKey_iff_substring:
  "(isPreferredKey d mail \<longleftrightarrow> (\<exists>a\<in>set (mailAdresses d). \<exists>ps ss. a = ps @ mail @ ss))
   \<and> (mailAdresses d = [] \<longrightarrow> \<not> isPreferredKey d mail)"
  by (auto simp: isPreferredKey_def anyContains_iff contains_iff)

theorem isPreferredKey_iff_substring_witness:
  "isPreferredKey
     \<lparr>fingerprint = QLatin ''A1'',
      mailAdresses = [QLatin ''al@kde.org'', QLatin ''alice@x.org'']\<rparr> (QLatin ''ice@'')
   \<and> (\<exists>a\<in>set [QLatin ''al@kde.org'', QLatin ''alice@x.org''].
         \<exists>ps ss. a = ps @ QLatin ''ice@'' @ ss)
   \<and> \<not> isPreferredKey \<lparr>fingerprint = QLatin ''A1'', mailAdresses = []\<rparr> (QLatin ''ice@'')"
proof -
  have e: "isPreferredKey
     \<lparr>fingerprint = QLatin ''A1'',
      mailAdresses = [QLatin ''al@kde.org'', QLatin ''alice@x.org'']\<rparr> (QLatin ''ice@'')"
    by (simp add: isPreferredKey_def QLatin_def)
  from e isPreferredKey_iff_substring
    [of "\<lparr>fingerprint = QLatin ''A1'',
          mailAdresses = [QLatin ''al@kde.org'', QLatin ''alice@x.org'']\<rparr>" "QLatin ''ice@''"]
  have s: "\<exists>a\<in>set [QLatin ''al@kde.org'', QLatin ''alice@x.org''].
         \<exists>ps ss. a = ps @ QLatin ''ice@'' @ ss"
    by simp
  from isPreferredKey_iff_substring
    [of "\<lparr>fingerprint = QLatin ''A1'', mailAdresses = []\<rparr>" "QLatin ''ice@''"]
  have n: "\<not> isPreferredKey \<lparr>fingerprint = QLatin ''A1'', mailAdresses = []\<rparr> (QLatin ''ice@'')"
    by simp
  from e s n show ?thesis by blast
qed

subsection \<open>C8: \<open>listKeys\<close> and backend errors\<close>

text \<open>
  C8. When starting the listing reports an error, \<open>listKeys\<close> returns the empty sequence
  without a call of \<open>nextKey\<close>. Otherwise, when call number \<open>n\<close> of \<open>nextKey\<close> is the
  first whose error has a code (an error in mid-stream or the end of the results),
  \<open>listKeys\<close> returns exactly the keys of the \<open>n\<close> calls before it, in order, and has made
  \<open>n + 1\<close> calls of \<open>nextKey\<close>: it stopped there.
\<close>

theorem listKeys_stops_at_first_error:
  "(isError (startKeyListing ctx (constData (toUtf8 P)) False) \<longrightarrow>
      listKeys ctx P = Some ([], [StartKeyListing (constData (toUtf8 P)) False]))
   \<and> (\<not> isError (startKeyListing ctx (constData (toUtf8 P)) False)
        \<and> code (snd (nextKey ctx (constData (toUtf8 P)) n)) \<noteq> 0
        \<and> (\<forall>i<n. code (snd (nextKey ctx (constData (toUtf8 P)) i)) = 0) \<longrightarrow>
      listKeys ctx P =
        Some (map (\<lambda>i. fst (nextKey ctx (constData (toUtf8 P)) i)) [0..<n],
              StartKeyListing (constData (toUtf8 P)) False # replicate (Suc n) NextKey))"
  using listKeys_start_error listKeys_first_error by blast

text \<open>
  A listing that does not start, one that breaks after the first key, and one that ends
  after two keys.
\<close>

theorem listKeys_stops_at_first_error_witness:
  "listKeys noListingContext (QLatin ''bob'') =
     Some ([], [StartKeyListing (ascii ''bob'') False])
   \<and> listKeys brokenListingContext (QLatin ''bob'') =
       Some ([aliceKey], [StartKeyListing (ascii ''bob'') False, NextKey, NextKey])
   \<and> listKeys sampleContext (QLatin ''bob'') =
       Some ([aliceKey, bobKey],
             [StartKeyListing (ascii ''bob'') False, NextKey, NextKey, NextKey])"
proof -
  have p: "constData (toUtf8 (QLatin ''bob'')) = ascii ''bob''"
    by (simp add: QLatin_def ascii_def constData_def)
  have a: "listKeys noListingContext (QLatin ''bob'') =
       Some ([], [StartKeyListing (ascii ''bob'') False])"
    using listKeys_stops_at_first_error [of noListingContext "QLatin ''bob''" 0] unfolding p
    by (simp add: noListingContext_def generalError_def)
  have b: "listKeys brokenListingContext (QLatin ''bob'') =
       Some ([aliceKey], [StartKeyListing (ascii ''bob'') False, NextKey, NextKey])"
    using listKeys_stops_at_first_error [of brokenListingContext "QLatin ''bob''" 1] unfolding p
    by (simp add: brokenListingContext_def sampleContext_def noError_def generalError_def)
  have c: "listKeys sampleContext (QLatin ''bob'') =
       Some ([aliceKey, bobKey],
             [StartKeyListing (ascii ''bob'') False, NextKey, NextKey, NextKey])"
    using listKeys_stops_at_first_error [of sampleContext "QLatin ''bob''" 2] unfolding p
    by (simp add: sampleContext_def noError_def eof_def less_Suc_eq numeral_2_eq_2
        numeral_3_eq_3 upt_rec)
  from a b c show ?thesis by blast
qed

subsection \<open>C9: the round trip\<close>

text \<open>
  C9 does not hold of the code, for the reason of C4. On the sample backend, which
  decrypts what it encrypted (\<open>sample_valid_key_pair\<close>), the text U+00E9 is encrypted
  for the key \<open>A1\<close> with success, but only its first byte C3 went in; decrypting the
  ciphertext \<open>MD\<close> succeeds and gives back that byte, which decodes to U+FFFD.
\<close>

theorem round_trip_loses_non_ascii_text:
  "encryptString sampleContext [0xE9] (QLatin ''A1'') (QLatin ''alice'') False =
     Some (\<lparr>resultString = QLatin ''MD'', keyFound = True, decryptionSuccess = True,
             errorMessage = []\<rparr>,
           [StartKeyListing (ascii ''alice'') False, NextKey, NextKey, NextKey,
            Encrypt [aliceKey] [0xC3] AlwaysTrust])
   \<and> decryptString sampleContext (QLatin ''MD'') (QLatin ''A1'') =
     (\<lparr>resultString = [0xFFFD], keyFound = True, decryptionSuccess = True,
       errorMessage = []\<rparr>,
      [KeyLookup (ascii ''A1'') False, Decrypt (ascii ''MD'')])"
  by (subst encryptString_listed [OF sample_listKeys])
     (simp add: decryptString_def newResult_def sample_defs string_defs)

subsection \<open>C10: what a result of \<open>decryptString\<close> can be\<close>

text \<open>
  C10. In every result of \<open>decryptString\<close>, \<open>decryptionSuccess\<close> implies \<open>keyFound\<close>,
  and without \<open>keyFound\<close> the result string is empty; in that case the key lookup is
  the only call that was made on the backend, nothing was decrypted.
\<close>

theorem decryptString_result_invariant:
  "(decryptionSuccess (fst (decryptString ctx inputString fp)) \<longrightarrow>
      keyFound (fst (decryptString ctx inputString fp)))
   \<and> (\<not> keyFound (fst (decryptString ctx inputString fp)) \<longrightarrow>
      resultString (fst (decryptString ctx inputString fp)) = []
      \<and> snd (decryptString ctx inputString fp) = [KeyLookup (constData (toUtf8 fp)) False])"
  by (simp add: decryptString_def Let_def case_prod_beta newResult_def)

text \<open>A successful decryption for the key \<open>A1\<close>, and an attempt with the unknown \<open>C3\<close>.\<close>

theorem decryptString_result_invariant_witness:
  "decryptionSuccess (fst (decryptString sampleContext (QLatin ''GI'') (QLatin ''A1'')))
   \<and> keyFound (fst (decryptString sampleContext (QLatin ''GI'') (QLatin ''A1'')))
   \<and> \<not> keyFound (fst (decryptString sampleContext (QLatin ''GI'') (QLatin ''C3'')))
   \<and> resultString (fst (decryptString sampleContext (QLatin ''GI'') (QLatin ''C3''))) = []
   \<and> snd (decryptString sampleContext (QLatin ''GI'') (QLatin ''C3'')) =
       [KeyLookup (ascii ''C3'') False]"
proof -
  have p: "constData (toUtf8 (QLatin ''C3'')) = ascii ''C3''"
    by (simp add: QLatin_def ascii_def constData_def)
  have s: "decryptionSuccess (fst (decryptString sampleContext (QLatin ''GI'') (QLatin ''A1'')))"
    by (simp add: decryptString_def newResult_def sample_defs string_defs)
  have n: "\<not> keyFound (fst (decryptString sampleContext (QLatin ''GI'') (QLatin ''C3'')))"
    by (simp add: decryptString_def newResult_def sample_defs string_defs)
  from s decryptString_result_invariant [of sampleContext "QLatin ''GI''" "QLatin ''A1''"]
  have k: "keyFound (fst (decryptString sampleContext (QLatin ''GI'') (QLatin ''A1'')))"
    by blast
  from n decryptString_result_invariant [of sampleContext "QLatin ''GI''" "QLatin ''C3''"]
  have r: "resultString (fst (decryptString sampleContext (QLatin ''GI'') (QLatin ''C3''))) = []
    \<and> snd (decryptString sampleContext (QLatin ''GI'') (QLatin ''C3'')) =
        [KeyLookup (ascii ''C3'') False]"
    unfolding p by blast
  from s k n r show ?thesis by blast
qed

end
